theory Spec2Isabelle
  imports Complex_Main "HOL-Library.AList"
begin

section \<open>Exceptions\<close>

text \<open>
  The fetcher raises one exception class of its own, \<open>DataFetchError\<close>, at three places,
  each with a fixed message prefix followed by an interpolated string. The prefixes are
  Chinese texts; they are kept apart here by a tag:
  \<^item> \<open>Illegal_us_code\<close>: "illegal US stock code: ", followed by the code as it was passed in;
  \<^item> \<open>Yahoo_no_data\<close>: "Yahoo Finance has no data: ", followed by the validated code;
  \<^item> \<open>Normalize_empty\<close>: "normalisation failed, data is empty: ", followed by the code.

  The other exceptions come from the libraries: \<open>KeyError\<close> (a column that is not there),
  \<open>ValueError\<close> and \<open>TypeError\<close> (pandas), \<open>ProviderError\<close> (anything the download
  raises) and \<open>RetryError\<close>, which the retry decorator raises around the failure of the
  last attempt.
\<close>

datatype message = Illegal_us_code | Yahoo_no_data | Normalize_empty

datatype error =
    DataFetchError message string
  | KeyError string
  | ValueError string
  | TypeError string
  | ProviderError string
  | RetryError error



section \<open>Strings\<close>

text \<open>
  A Python \<open>str\<close> is modelled as a \<open>string\<close> over the ASCII range, where \<open>str.strip\<close>
  and \<open>str.upper\<close> are fixed by the language: the white space of \<open>strip\<close> is the code
  points 9 to 13, 28 to 31 and 32, and \<open>upper\<close> moves \<open>a..z\<close> to \<open>A..Z\<close>. Characters
  beyond ASCII are left as they are and are no white space.
\<close>

definition isspace :: "char \<Rightarrow> bool" where
  "isspace c = (let n = (of_char c :: nat) in (9 \<le> n \<and> n \<le> 13) \<or> (28 \<le> n \<and> n \<le> 32))"

definition strip :: "string \<Rightarrow> string" where
  "strip s = rev (dropWhile isspace (rev (dropWhile isspace s)))"

definition upper_char :: "char \<Rightarrow> char" where
  "upper_char c = (let n = (of_char c :: nat) in
     if 97 \<le> n \<and> n \<le> 122 then char_of (n - 32) else c)"

definition upper :: "string \<Rightarrow> string" where
  "upper s = map upper_char s"

section \<open>The regular expression of the ticker check\<close>

text \<open>
  \<open>re.match\<close> tries the pattern at the start of the string and does not ask that the whole
  string is used up. The engine below returns, for a pattern and a string, the rests that
  remain after every way of matching a prefix; a match exists when there is one. \<open>Dollar\<close>
  is Python's \<open>$\<close> without the MULTILINE flag: it holds at the end of the string and also
  just before a line feed that ends the string. The leading \<open>^\<close> of the pattern holds at
  position 0, which is where \<open>re.match\<close> starts, and is left out.
\<close>

datatype regex =
    Lit char
  | Range char char
  | Seq regex regex
  | Opt regex
  | Rep nat nat regex
  | Dollar

primrec iter :: "(string \<Rightarrow> string list) \<Rightarrow> nat \<Rightarrow> string \<Rightarrow> string list" where
  "iter f 0 s = [s]"
| "iter f (Suc k) s = concat (map (iter f k) (f s))"

primrec remainders :: "regex \<Rightarrow> string \<Rightarrow> string list" where
  "remainders (Lit c) s = (case s of [] \<Rightarrow> [] | x # xs \<Rightarrow> if x = c then [xs] else [])"
| "remainders (Range a b) s =
     (case s of [] \<Rightarrow> []
      | x # xs \<Rightarrow> if (of_char a :: nat) \<le> of_char x \<and> (of_char x :: nat) \<le> of_char b
                  then [xs] else [])"
| "remainders (Seq r1 r2) s = concat (map (remainders r2) (remainders r1 s))"
| "remainders (Opt r) s = remainders r s @ [s]"
| "remainders (Rep lo hi r) s = concat (map (\<lambda>k. iter (remainders r) k s) [lo..<Suc hi])"
| "remainders Dollar s = (if s = [] \<or> s = [CHR 0x0A] then [s] else [])"

definition re_match :: "regex \<Rightarrow> string \<Rightarrow> bool" where
  "re_match p s = (remainders p s \<noteq> [])"

definition us_code_pattern :: regex where
  "us_code_pattern =
     Seq (Rep 1 6 (Range CHR ''A'' CHR ''Z''))
         (Seq (Opt (Seq (Lit CHR ''.'') (Rep 1 2 (Range CHR ''A'' CHR ''Z'')))) Dollar)"

section \<open>Ticker validation\<close>

definition validate_us_stock_code :: "string \<Rightarrow> error + string" where
  "validate_us_stock_code stock_code =
     (let code = upper (strip stock_code) in
      if re_match us_code_pattern code then Inr code
      else Inl (DataFetchError Illegal_us_code stock_code))"

text \<open>
  The grammar in the words of the specification: one to six upper-case letters, optionally
  followed by a dot and one or two upper-case letters, and nothing else.
\<close>

definition is_AZ :: "char \<Rightarrow> bool" where
  "is_AZ c = ((65::nat) \<le> of_char c \<and> (of_char c :: nat) \<le> 90)"

definition ticker_grammar :: "string \<Rightarrow> bool" where
  "ticker_grammar s =
     (let a = takeWhile is_AZ s; r = dropWhile is_AZ s in
      1 \<le> length a \<and> length a \<le> 6 \<and>
      (case r of [] \<Rightarrow> True
       | d # b \<Rightarrow> d = CHR ''.'' \<and> 1 \<le> length b \<and> length b \<le> 2 \<and> list_all is_AZ b))"

text \<open>Auxiliary notions for the proofs about the pattern.\<close>

definition dollar :: "string \<Rightarrow> bool" where
  "dollar r = (r = [] \<or> r = [CHR 0x0A])"

definition tail_ok :: "string \<Rightarrow> bool" where
  "tail_ok r = (dollar r \<or> (\<exists>b j. r = CHR ''.'' # b \<and> 1 \<le> j \<and> j \<le> 2 \<and>
      j \<le> length (takeWhile is_AZ b) \<and> dollar (drop j b)))"

definition no_final_newline :: "string \<Rightarrow> bool" where
  "no_final_newline s = (s = [] \<or> last s \<noteq> CHR 0x0A)"

section \<open>Floating-point cells\<close>

text \<open>
  A numeric cell of a table is a binary64 value. Its special values are kept (\<open>NaN\<close> is
  what pandas shows as a missing value, the two infinities come from a division by
  zero in numpy); its finite values are taken as exact rationals, so the rounding error
  of binary64, overflow and the sign of zero are outside the model. The operations are
  numpy's element-wise ones: none of them raises.
\<close>

datatype fval = NaN | PInf | NInf | Fin rat

fun fdiv :: "fval \<Rightarrow> fval \<Rightarrow> fval" where
  "fdiv NaN y = NaN"
| "fdiv x NaN = NaN"
| "fdiv (Fin a) (Fin b) =
     (if b = 0 then (if a = 0 then NaN else if 0 < a then PInf else NInf) else Fin (a / b))"
| "fdiv (Fin a) y = Fin 0"
| "fdiv PInf (Fin b) = (if 0 \<le> b then PInf else NInf)"
| "fdiv NInf (Fin b) = (if 0 \<le> b then NInf else PInf)"
| "fdiv x y = NaN"

fun fsub :: "fval \<Rightarrow> fval \<Rightarrow> fval" where
  "fsub NaN y = NaN"
| "fsub x NaN = NaN"
| "fsub (Fin a) (Fin b) = Fin (a - b)"
| "fsub (Fin a) PInf = NInf"
| "fsub (Fin a) NInf = PInf"
| "fsub PInf PInf = NaN"
| "fsub PInf y = PInf"
| "fsub NInf NInf = NaN"
| "fsub NInf y = NInf"

fun fmul :: "fval \<Rightarrow> fval \<Rightarrow> fval" where
  "fmul NaN y = NaN"
| "fmul x NaN = NaN"
| "fmul (Fin a) (Fin b) = Fin (a * b)"
| "fmul (Fin a) PInf = (if a = 0 then NaN else if 0 < a then PInf else NInf)"
| "fmul (Fin a) NInf = (if a = 0 then NaN else if 0 < a then NInf else PInf)"
| "fmul PInf (Fin b) = (if b = 0 then NaN else if 0 < b then PInf else NInf)"
| "fmul NInf (Fin b) = (if b = 0 then NaN else if 0 < b then NInf else PInf)"
| "fmul PInf PInf = PInf"
| "fmul PInf NInf = NInf"
| "fmul NInf PInf = NInf"
| "fmul NInf NInf = PInf"

text \<open>\<open>numpy.rint\<close> rounds to the nearest integer, a tie to the even one.\<close>

definition round_half_even :: "rat \<Rightarrow> int" where
  "round_half_even x =
     (let f = \<lfloor>x\<rfloor>; d = x - of_int f in
      if d < 1 / 2 then f else if 1 / 2 < d then f + 1 else if even f then f else f + 1)"

text \<open>\<open>round(decimals)\<close> scales by the power of ten, rounds with \<open>rint\<close> and scales back.\<close>

fun fround :: "nat \<Rightarrow> fval \<Rightarrow> fval" where
  "fround decimals (Fin r) = Fin (of_int (round_half_even (r * 10 ^ decimals)) / 10 ^ decimals)"
| "fround decimals x = x"

fun fillna :: "fval \<Rightarrow> fval \<Rightarrow> fval" where
  "fillna v NaN = v"
| "fillna v x = x"

text \<open>The truth value of a Python float: everything but zero is true, \<open>NaN\<close> too.\<close>

fun truthy :: "fval \<Rightarrow> bool" where
  "truthy (Fin r) = (r \<noteq> 0)"
| "truthy x = True"

section \<open>Tables\<close>

text \<open>
  The provider's table (\<open>raw_frame\<close>) has an index, either the default row numbering or
  time stamps under an optional name, and data columns of floats in their order. Its
  columns are as long as its index and carry distinct labels. A column is found by its
  label, the first of that label. After \<open>reset_index\<close> the index is the row numbering and
  the table is a \<open>frame\<close>, whose columns may hold floats, time stamps or strings.
\<close>

datatype index = RangeIndex nat | DatetimeIndex "string option" "int list"

datatype column = Floats "fval list" | Stamps "int list" | Strs "string list"

record raw_frame =
  r_index :: index
  r_data :: "(string \<times> fval list) list"

record frame =
  f_rows :: nat
  f_cols :: "(string \<times> column) list"

fun index_length :: "index \<Rightarrow> nat" where
  "index_length (RangeIndex n) = n"
| "index_length (DatetimeIndex nm ts) = length ts"

text \<open>\<open>df.empty\<close>: one of the two axes has length 0.\<close>

definition empty_frame :: "raw_frame \<Rightarrow> bool" where
  "empty_frame df = (index_length (r_index df) = 0 \<or> r_data df = [])"

definition bind_err :: "error + 'a \<Rightarrow> ('a \<Rightarrow> error + 'b) \<Rightarrow> error + 'b" where
  "bind_err r f = (case r of Inl e \<Rightarrow> Inl e | Inr v \<Rightarrow> f v)"

text \<open>
  \<open>reset_index\<close> puts the index in front as a column, under its name, or under
  \<open>index\<close> (\<open>level_0\<close> when \<open>index\<close> is taken) when it has none, and refuses a label
  that is there already.
\<close>

definition index_label :: "raw_frame \<Rightarrow> string" where
  "index_label df =
     (let dflt = (if ''index'' \<in> set (map fst (r_data df)) then ''level_0'' else ''index'') in
      case r_index df of
        RangeIndex n \<Rightarrow> dflt
      | DatetimeIndex None ts \<Rightarrow> dflt
      | DatetimeIndex (Some nm) ts \<Rightarrow> nm)"

fun index_column :: "index \<Rightarrow> column" where
  "index_column (RangeIndex n) = Floats (map (\<lambda>i. Fin (of_nat i)) [0..<n])"
| "index_column (DatetimeIndex nm ts) = Stamps ts"

definition reset_index :: "raw_frame \<Rightarrow> error + frame" where
  "reset_index df =
     (let nm = index_label df in
      if nm \<in> set (map fst (r_data df)) then Inl (ValueError nm)
      else Inr \<lparr>f_rows = index_length (r_index df),
                f_cols = (nm, index_column (r_index df)) # map (\<lambda>(k, v). (k, Floats v)) (r_data df)\<rparr>)"

definition rename :: "(string \<times> string) list \<Rightarrow> frame \<Rightarrow> frame" where
  "rename m df =
     df\<lparr>f_cols := map (\<lambda>(k, v). (case map_of m k of None \<Rightarrow> k | Some k' \<Rightarrow> k', v)) (f_cols df)\<rparr>"

definition get_col :: "frame \<Rightarrow> string \<Rightarrow> error + column" where
  "get_col df k = (case map_of (f_cols df) k of None \<Rightarrow> Inl (KeyError k) | Some c \<Rightarrow> Inr c)"

text \<open>\<open>df[k] = c\<close> replaces the column of that label where it stands, or appends it.\<close>

definition set_col :: "frame \<Rightarrow> string \<Rightarrow> column \<Rightarrow> frame" where
  "set_col df k c = df\<lparr>f_cols := AList.update k c (f_cols df)\<rparr>"

text \<open>\<open>df[labels]\<close> for labels that are all there: those columns, in the order asked for.\<close>

definition select_cols :: "frame \<Rightarrow> string list \<Rightarrow> frame" where
  "select_cols df ks =
     df\<lparr>f_cols := concat (map (\<lambda>k. case map_of (f_cols df) k of None \<Rightarrow> [] | Some c \<Rightarrow> [(k, c)]) ks)\<rparr>"

definition floats_of :: "column \<Rightarrow> error + fval list" where
  "floats_of c = (case c of Floats xs \<Rightarrow> Inr xs | Stamps ts \<Rightarrow> Inl (TypeError ''datetime'')
                  | Strs ss \<Rightarrow> Inl (TypeError ''str''))"

subsection \<open>Percent change\<close>

text \<open>
  \<open>Series.pct_change()\<close> divides every value by the one a row before and subtracts 1.
  Before that, pandas up to 2.x fills a missing value with the last one before it (the
  default \<open>fill_method='pad'\<close>); pandas 3 does not fill. Which pandas runs is not fixed by
  the sources, so the fill method is a parameter.
\<close>

datatype fill_method = Pad | No_fill

fun ffill_from :: "fval \<Rightarrow> fval list \<Rightarrow> fval list" where
  "ffill_from lst [] = []"
| "ffill_from lst (x # xs) = (if x = NaN then lst # ffill_from lst xs else x # ffill_from x xs)"

definition ffill :: "fval list \<Rightarrow> fval list" where
  "ffill xs = ffill_from NaN xs"

definition shift1 :: "fval list \<Rightarrow> fval list" where
  "shift1 xs = take (length xs) (NaN # xs)"

definition pct_change :: "fill_method \<Rightarrow> fval list \<Rightarrow> fval list" where
  "pct_change fm xs =
     (let d = (case fm of Pad \<Rightarrow> ffill xs | No_fill \<Rightarrow> xs) in
      map2 (\<lambda>a b. fsub (fdiv a b) (Fin 1)) d (shift1 d))"

section \<open>Normalisation\<close>

text \<open>
  Modelled from the spec: \<open>STANDARD_COLUMNS\<close> is imported from the module \<open>base\<close>, which
  is not among the sources. The specification fixes the canonical schema as code, date,
  open, high, low, close, volume, pct_chg, amount, and the function puts \<open>code\<close> in front
  itself.
\<close>

definition STANDARD_COLUMNS :: "string list" where
  "STANDARD_COLUMNS =
     [''date'', ''open'', ''high'', ''low'', ''close'', ''volume'', ''pct_chg'', ''amount'']"

definition rename_map :: "(string \<times> string) list" where
  "rename_map = [(''Date'', ''date''), (''Open'', ''open''), (''High'', ''high''),
                 (''Low'', ''low''), (''Close'', ''close''), (''Volume'', ''volume'')]"

text \<open>
  \<open>_normalize_data\<close>, statement by statement. \<open>pd.to_datetime\<close> is a parameter: what it
  accepts and how it parses is the library's matter and no result below depends on it.
\<close>

text \<open>\<open>df["date"] = pd.to_datetime(df["date"])\<close>\<close>

definition convert_date :: "(column \<Rightarrow> error + column) \<Rightarrow> frame \<Rightarrow> error + frame" where
  "convert_date to_datetime df =
     bind_err (get_col df ''date'') (\<lambda>dc.
     bind_err (to_datetime dc) (\<lambda>dt.
     Inr (set_col df ''date'' dt)))"

text \<open>\<open>df["pct_chg"] = df["close"].pct_change() * 100\<close>\<close>

definition assign_pct_chg :: "fill_method \<Rightarrow> frame \<Rightarrow> error + frame" where
  "assign_pct_chg fm df =
     bind_err (get_col df ''close'') (\<lambda>cl.
     bind_err (floats_of cl) (\<lambda>cs.
     Inr (set_col df ''pct_chg'' (Floats (map (\<lambda>x. fmul x (Fin 100)) (pct_change fm cs))))))"

text \<open>\<open>df["pct_chg"] = df["pct_chg"].fillna(0).round(2)\<close>\<close>

definition fill_and_round :: "frame \<Rightarrow> error + frame" where
  "fill_and_round df =
     bind_err (get_col df ''pct_chg'') (\<lambda>pc.
     bind_err (floats_of pc) (\<lambda>ps.
     Inr (set_col df ''pct_chg'' (Floats (map (fround 2) (map (fillna (Fin 0)) ps))))))"

text \<open>\<open>df["amount"] = df["volume"] * df["close"]\<close>\<close>

definition assign_amount :: "frame \<Rightarrow> error + frame" where
  "assign_amount df =
     bind_err (get_col df ''volume'') (\<lambda>vl.
     bind_err (get_col df ''close'') (\<lambda>cl.
     bind_err (floats_of vl) (\<lambda>vs.
     bind_err (floats_of cl) (\<lambda>cs.
     Inr (set_col df ''amount'' (Floats (map2 fmul vs cs)))))))"

text \<open>\<open>df["code"] = stock_code.upper()\<close>: the one string in every row.\<close>

definition assign_code :: "frame \<Rightarrow> string \<Rightarrow> frame" where
  "assign_code df stock_code =
     set_col df ''code'' (Strs (replicate (f_rows df) (upper stock_code)))"

text \<open>\<open>keep_cols = ["code"] + STANDARD_COLUMNS\<close> and the selection of those that are there.\<close>

definition keep_standard :: "frame \<Rightarrow> frame" where
  "keep_standard df =
     (let keep_cols = ''code'' # STANDARD_COLUMNS
      in select_cols df (filter (\<lambda>c. c \<in> set (map fst (f_cols df))) keep_cols))"

definition normalize_data ::
  "fill_method \<Rightarrow> (column \<Rightarrow> error + column) \<Rightarrow> raw_frame option \<Rightarrow> string \<Rightarrow> error + frame" where
  "normalize_data fm to_datetime df stock_code =
     (case df of
        None \<Rightarrow> Inl (DataFetchError Normalize_empty stock_code)
      | Some raw \<Rightarrow>
          if empty_frame raw then Inl (DataFetchError Normalize_empty stock_code)
          else
            bind_err (reset_index raw) (\<lambda>d0.
            bind_err (convert_date to_datetime (rename rename_map d0)) (\<lambda>d2.
            bind_err (assign_pct_chg fm d2) (\<lambda>d3.
            bind_err (fill_and_round d3) (\<lambda>d4.
            bind_err (assign_amount d4) (\<lambda>d5.
            Inr (keep_standard (assign_code d5 stock_code))))))))"

section \<open>The retried download\<close>

text \<open>
  The world a call runs in: the attempt number of the retry decorator's statistics, the
  downloads issued, the waits slept and the log lines written. The provider answers a
  download by raising or by returning a table or nothing; its answer may depend on the
  world, so that a stub that fails twice and then succeeds is a provider.
\<close>

record world =
  attempts :: nat
  net_calls :: "(string \<times> string \<times> string) list"
  sleeps :: "nat list"
  log_lines :: "(string \<times> string \<times> string) list"

datatype response = Raises string | Returns "raw_frame option"

type_synonym provider = "world \<Rightarrow> string \<Rightarrow> string \<Rightarrow> string \<Rightarrow> response"

text \<open>The body of \<open>_fetch_raw_data\<close>, one attempt.\<close>

definition fetch_body ::
  "provider \<Rightarrow> string \<Rightarrow> string \<Rightarrow> string \<Rightarrow> world \<Rightarrow> (error + raw_frame) \<times> world" where
  "fetch_body prov stock_code start_date end_date w =
     (case validate_us_stock_code stock_code of
        Inl e \<Rightarrow> (Inl e, w)
      | Inr yf_code \<Rightarrow>
          let w1 = w\<lparr>log_lines := log_lines w @ [(yf_code, start_date, end_date)]\<rparr>;
              w2 = w1\<lparr>net_calls := net_calls w1 @ [(yf_code, start_date, end_date)]\<rparr>
          in case prov w1 yf_code start_date end_date of
               Raises x \<Rightarrow> (Inl (ProviderError x), w2)
             | Returns None \<Rightarrow> (Inl (DataFetchError Yahoo_no_data yf_code), w2)
             | Returns (Some df) \<Rightarrow>
                 if empty_frame df then (Inl (DataFetchError Yahoo_no_data yf_code), w2)
                 else (Inr df, w2))"

text \<open>
  The decorator \<open>retry(stop=stop_after_attempt(3), wait=wait_exponential(min=2, max=10))\<close>
  of the tenacity library: it calls the body; a return is passed on; on any exception it
  asks \<open>stop\<close> with the number of the attempt that failed, and either raises \<open>RetryError\<close>
  around the failure (the default, \<open>reraise=False\<close>) or sleeps for \<open>wait\<close> of that number
  and calls again. \<open>wait_exponential\<close> has \<open>multiplier=1\<close> and \<open>exp_base=2\<close> by default.
\<close>

definition stop_after_attempt :: "nat \<Rightarrow> nat \<Rightarrow> bool" where
  "stop_after_attempt max_attempt_number attempt_number = (max_attempt_number \<le> attempt_number)"

definition wait_exponential :: "nat \<Rightarrow> nat \<Rightarrow> nat \<Rightarrow> nat \<Rightarrow> nat \<Rightarrow> nat" where
  "wait_exponential multiplier mn mx exp_base attempt_number =
     max (max 0 mn) (min (multiplier * exp_base ^ (attempt_number - 1)) mx)"

function retry_call ::
  "nat \<Rightarrow> (nat \<Rightarrow> nat) \<Rightarrow> (world \<Rightarrow> (error + 'a) \<times> world) \<Rightarrow> nat \<Rightarrow> world \<Rightarrow> (error + 'a) \<times> world" where
  "retry_call max_attempts wait body n w =
     (case body (w\<lparr>attempts := n\<rparr>) of
        (Inr v, w') \<Rightarrow> (Inr v, w')
      | (Inl e, w') \<Rightarrow>
          if stop_after_attempt max_attempts n then (Inl (RetryError e), w')
          else retry_call max_attempts wait body (Suc n) (w'\<lparr>sleeps := sleeps w' @ [wait n]\<rparr>))"
  by pat_completeness auto
termination
  by (relation "measure (\<lambda>(m, wait, body, n, w). m - n)") (auto simp: stop_after_attempt_def)

definition fetch_raw_data ::
  "provider \<Rightarrow> world \<Rightarrow> string \<Rightarrow> string \<Rightarrow> string \<Rightarrow> (error + raw_frame) \<times> world" where
  "fetch_raw_data prov w stock_code start_date end_date =
     retry_call 3 (wait_exponential 1 2 10 2) (fetch_body prov stock_code start_date end_date) 1 w"

section \<open>The facade\<close>

text \<open>
  Modelled from the spec: the operation that composes validation, download and
  normalisation belongs to the base class in the module \<open>base\<close>, which is not among the
  sources. The specification has it run the three in strict sequence, stop at the first
  failure and hand that failure on as it is. In the sources the validation is the first
  statement of the download's body, so the facade calls the download with the code as
  it was given and normalises the table that comes back.
\<close>

definition fetchHistory ::
  "fill_method \<Rightarrow> (column \<Rightarrow> error + column) \<Rightarrow> provider \<Rightarrow> world \<Rightarrow> string \<Rightarrow> string \<Rightarrow> string
     \<Rightarrow> (error + frame) \<times> world" where
  "fetchHistory fm to_datetime prov w rawCode startDate endDate =
     (case fetch_raw_data prov w rawCode startDate endDate of
        (Inl e, w') \<Rightarrow> (Inl e, w')
      | (Inr raw, w') \<Rightarrow> (normalize_data fm to_datetime (Some raw) rawCode, w'))"

section \<open>The market overview\<close>

text \<open>
  \<open>MarketIndex\<close> of the analyser module. \<open>Ticker(code).history(period="2d")\<close> either
  raises or returns a table.
\<close>

record MarketIndex =
  mi_code :: string
  mi_name :: string
  mi_current :: fval
  mi_change :: fval
  mi_change_pct :: fval
  mi_open :: fval
  mi_high :: fval
  mi_low :: fval
  mi_prev_close :: fval

datatype hist_response = History_raises string | History raw_frame

definition MAIN_INDICES :: "(string \<times> string) list" where
  "MAIN_INDICES = [(''^GSPC'', ''S&P 500''), (''^IXIC'', ''NASDAQ Composite''),
                   (''^DJI'', ''Dow Jones''), (''^VIX'', ''VIX Volatility'')]"

text \<open>\<open>hist.iloc[i]\<close>: the row at position \<open>i\<close>, a value under every column label.\<close>

definition iloc :: "raw_frame \<Rightarrow> nat \<Rightarrow> (string \<times> fval) list" where
  "iloc df i = map (\<lambda>(k, v). (k, v ! i)) (r_data df)"

definition row_get :: "(string \<times> fval) list \<Rightarrow> string \<Rightarrow> error + fval" where
  "row_get row k = (case map_of row k of None \<Rightarrow> Inl (KeyError k) | Some v \<Rightarrow> Inr v)"

text \<open>
  One pass of the loop body: the symbol is skipped by \<open>continue\<close>, or an exception is
  caught and logged, or an entry is appended.
\<close>

datatype outcome = Skipped | Caught error | Appended MarketIndex

definition index_entry :: "hist_response \<Rightarrow> string \<Rightarrow> string \<Rightarrow> outcome" where
  "index_entry r code name =
     (case r of
        History_raises x \<Rightarrow> Caught (ProviderError x)
      | History hist \<Rightarrow>
          if empty_frame hist then Skipped
          else
            let n = index_length (r_index hist);
                today = iloc hist (n - 1);
                prev = (if 1 < n then iloc hist (n - 2) else today)
            in case
                 bind_err (row_get today ''Close'') (\<lambda>price.
                 bind_err (row_get prev ''Close'') (\<lambda>prev_close.
                 let change = fsub price prev_close;
                     change_pct = (if truthy prev_close
                                   then fmul (fdiv change prev_close) (Fin 100) else Fin 0)
                 in
                 bind_err (row_get today ''Open'') (\<lambda>op.
                 bind_err (row_get today ''High'') (\<lambda>hi.
                 bind_err (row_get today ''Low'') (\<lambda>lo.
                 Inr \<lparr>mi_code = code, mi_name = name, mi_current = price, mi_change = change,
                      mi_change_pct = change_pct, mi_open = op, mi_high = hi, mi_low = lo,
                      mi_prev_close = prev_close\<rparr>)))))
               of Inl e \<Rightarrow> Caught e | Inr mi \<Rightarrow> Appended mi)"

fun indices_loop ::
  "(string \<Rightarrow> hist_response) \<Rightarrow> (string \<times> string) list \<Rightarrow> MarketIndex list \<Rightarrow> (string \<times> error) list
     \<Rightarrow> MarketIndex list \<times> (string \<times> error) list" where
  "indices_loop prov [] indices warnings = (indices, warnings)"
| "indices_loop prov ((code, name) # rest) indices warnings =
     (case index_entry (prov code) code name of
        Skipped \<Rightarrow> indices_loop prov rest indices warnings
      | Caught e \<Rightarrow> indices_loop prov rest indices (warnings @ [(name, e)])
      | Appended mi \<Rightarrow> indices_loop prov rest (indices @ [mi]) warnings)"

text \<open>
  \<open>_get_main_indices\<close> over a configuration of symbols and names in their order; the
  class runs it over \<open>MAIN_INDICES\<close>. It returns the entries and the warnings logged.
\<close>

definition get_main_indices ::
  "(string \<Rightarrow> hist_response) \<Rightarrow> (string \<times> string) list \<Rightarrow> MarketIndex list \<times> (string \<times> error) list" where
  "get_main_indices prov cfg = indices_loop prov cfg [] []"

text \<open>
  A fetch that brought something to build an entry from: it returned, the table is not
  empty, and the four price columns the entry reads are there.
\<close>

definition fetched_ok :: "hist_response \<Rightarrow> bool" where
  "fetched_ok r =
     (case r of
        History_raises x \<Rightarrow> False
      | History hist \<Rightarrow>
          \<not> empty_frame hist \<and>
          list_all (\<lambda>k. k \<in> set (map fst (r_data hist))) [''Close'', ''Open'', ''High'', ''Low''])"

section \<open>Example tables and providers\<close>

definition example_raw :: raw_frame where
  "example_raw =
     \<lparr>r_index = DatetimeIndex (Some ''Date'') [19724, 19725, 19726],
      r_data = [(''Open'', [Fin 99, Fin 101, Fin 108]),
                (''High'', [Fin 101, Fin 111, Fin 109]),
                (''Low'', [Fin 98, Fin 100, Fin 97]),
                (''Close'', [Fin 100, Fin 110, Fin 99]),
                (''Volume'', [Fin 1000, Fin 2000, Fin 1500])]\<rparr>"


definition empty_raw :: raw_frame where
  "empty_raw = \<lparr>r_index = DatetimeIndex (Some ''Date'') [], r_data = []\<rparr>"

definition keep_datetime :: "column \<Rightarrow> error + column" where
  "keep_datetime c = Inr c"

definition world0 :: world where
  "world0 = \<lparr>attempts = 0, net_calls = [], sleeps = [], log_lines = []\<rparr>"


definition always_example :: provider where
  "always_example w c s e = Returns (Some example_raw)"

definition fails_twice :: provider where
  "fails_twice w c s e =
     (if length (net_calls w) < 2 then Raises ''timeout'' else Returns (Some example_raw))"

definition one_throws :: "string \<Rightarrow> hist_response" where
  "one_throws c = (if c = ''^IXIC'' then History_raises ''timeout'' else History example_raw)"




section \<open>Notions for stating the results on normalisation\<close>

text \<open>
  The column a provider's table carries under a label once its index is a column and
  the provider's labels are renamed; this is the column the function reads.
\<close>

definition renamed_column :: "raw_frame \<Rightarrow> string \<Rightarrow> column option" where
  "renamed_column raw k =
     (case reset_index raw of Inl e \<Rightarrow> None
      | Inr d0 \<Rightarrow> map_of (f_cols (rename rename_map d0)) k)"

text \<open>The two statements that write \<open>pct_chg\<close>, as one function of the close column.\<close>

definition pct_column :: "fill_method \<Rightarrow> fval list \<Rightarrow> fval list" where
  "pct_column fm cs =
     map (fround 2) (map (fillna (Fin 0)) (map (\<lambda>x. fmul x (Fin 100)) (pct_change fm cs)))"



text \<open>What normalisation makes of the example tables.\<close>

definition example_out :: frame where
  "example_out =
     \<lparr>f_rows = 3,
      f_cols = [(''code'', Strs [''AAPL'', ''AAPL'', ''AAPL'']),
                (''date'', Stamps [19724, 19725, 19726]),
                (''open'', Floats [Fin 99, Fin 101, Fin 108]),
                (''high'', Floats [Fin 101, Fin 111, Fin 109]),
                (''low'', Floats [Fin 98, Fin 100, Fin 97]),
                (''close'', Floats [Fin 100, Fin 110, Fin 99]),
                (''volume'', Floats [Fin 1000, Fin 2000, Fin 1500]),
                (''pct_chg'', Floats [Fin 0, Fin 10, Fin (- 10)]),
                (''amount'', Floats [Fin 100000, Fin 220000, Fin 148500])]\<rparr>"


section \<open>Validation agrees with the grammar\<close>

lemma range_AZ:
  "remainders (Range CHR ''A'' CHR ''Z'') s =
     (case s of [] \<Rightarrow> [] | x # xs \<Rightarrow> if is_AZ x then [xs] else [])"
  by (simp add: is_AZ_def split: list.splits)

lemma iter_single:
  assumes f: "\<And>s. f s = (case s of [] \<Rightarrow> [] | x # xs \<Rightarrow> if P x then [xs] else [])"
  shows "iter f k s = (if k \<le> length (takeWhile P s) then [drop k s] else [])"
proof (induction k arbitrary: s)
  case 0
  then show ?case by simp
next
  case (Suc k)
  show ?case
  proof (cases s)
    case Nil
    then show ?thesis by (simp add: f)
  next
    case (Cons x xs)
    then show ?thesis using Suc by (simp add: f)
  qed
qed

lemma iter_AZ:
  "iter (remainders (Range CHR ''A'' CHR ''Z'')) k s =
     (if k \<le> length (takeWhile is_AZ s) then [drop k s] else [])"
  by (rule iter_single) (rule range_AZ)

lemma concat_map_if:
  "concat (map (\<lambda>k. if P k then [g k] else []) ks) = map g (filter P ks)"
  by (induction ks) auto

lemma rep_AZ:
  "remainders (Rep lo hi (Range CHR ''A'' CHR ''Z'')) s =
     map (\<lambda>k. drop k s) (filter (\<lambda>k. k \<le> length (takeWhile is_AZ s)) [lo..<Suc hi])"
  by (simp only: remainders.simps(5) iter_AZ concat_map_if)

lemma concat_map_ne: "concat (map f xs) \<noteq> [] \<longleftrightarrow> (\<exists>x\<in>set xs. f x \<noteq> [])"
  by (induction xs) auto

lemma seq_ne:
  "remainders (Seq r1 r2) s \<noteq> [] \<longleftrightarrow> (\<exists>x\<in>set (remainders r1 s). remainders r2 x \<noteq> [])"
  by (simp add: concat_map_ne)

lemma dollar_ne: "remainders Dollar x \<noteq> [] \<longleftrightarrow> dollar x"
  by (simp add: dollar_def)

lemma dot_group:
  "set (remainders (Seq (Lit CHR ''.'') (Rep 1 2 (Range CHR ''A'' CHR ''Z''))) r) =
     {x. \<exists>b j. r = CHR ''.'' # b \<and> 1 \<le> j \<and> j \<le> 2 \<and> j \<le> length (takeWhile is_AZ b) \<and> x = drop j b}"
proof (cases r)
  case Nil
  then show ?thesis by simp
next
  case (Cons d b)
  have "set (remainders (Rep 1 2 (Range CHR ''A'' CHR ''Z'')) b) =
      {x. \<exists>j. 1 \<le> j \<and> j \<le> 2 \<and> j \<le> length (takeWhile is_AZ b) \<and> x = drop j b}"
    unfolding rep_AZ by (auto simp del: upt_Suc)
  with Cons show ?thesis
    by (cases "d = CHR ''.''") (simp_all del: remainders.simps(5))
qed

lemma tail_remainders:
  "remainders (Seq (Opt (Seq (Lit CHR ''.'') (Rep 1 2 (Range CHR ''A'' CHR ''Z'')))) Dollar) r \<noteq> []
     \<longleftrightarrow> tail_ok r"
  unfolding seq_ne dollar_ne remainders.simps(4) set_append dot_group tail_ok_def
  by auto

lemma re_match_us_code:
  "re_match us_code_pattern s \<longleftrightarrow>
     (\<exists>k. 1 \<le> k \<and> k \<le> 6 \<and> k \<le> length (takeWhile is_AZ s) \<and> tail_ok (drop k s))"
proof -
  have "re_match us_code_pattern s \<longleftrightarrow>
     (\<exists>k\<in>set (filter (\<lambda>k. k \<le> length (takeWhile is_AZ s)) [1..<Suc 6]). tail_ok (drop k s))"
    unfolding re_match_def us_code_pattern_def
    by (simp only: remainders.simps(3)[of "Rep _ _ _"] rep_AZ concat_map_ne
        set_map bex_simps tail_remainders)
  also have "\<dots> \<longleftrightarrow>
     (\<exists>k. 1 \<le> k \<and> k \<le> 6 \<and> k \<le> length (takeWhile is_AZ s) \<and> tail_ok (drop k s))"
    by (auto simp del: upt_Suc)
  finally show ?thesis .
qed

lemma drop_takeWhile_less:
  assumes "k < length (takeWhile P s)"
  shows "\<exists>x xs. drop k s = x # xs \<and> P x"
proof -
  have k: "k < length s" using assms length_takeWhile_le[of P s] by (meson less_le_trans)
  have "s ! k = takeWhile P s ! k" using assms by (simp add: takeWhile_nth)
  moreover have "P (takeWhile P s ! k)" using assms by (meson nth_mem set_takeWhileD)
  ultimately have "P (s ! k)" by simp
  with k show ?thesis by (metis Cons_nth_drop_Suc)
qed

lemma tail_ok_letter: "is_AZ x \<Longrightarrow> \<not> tail_ok (x # xs)"
  by (auto simp: tail_ok_def dollar_def is_AZ_def)

lemma re_match_at_letters:
  "re_match us_code_pattern s \<longleftrightarrow>
     1 \<le> length (takeWhile is_AZ s) \<and> length (takeWhile is_AZ s) \<le> 6 \<and> tail_ok (dropWhile is_AZ s)"
proof -
  have *: "tail_ok (drop k s) \<Longrightarrow> k \<le> length (takeWhile is_AZ s) \<Longrightarrow> k = length (takeWhile is_AZ s)" for k
    using drop_takeWhile_less[of k is_AZ s] tail_ok_letter by (metis le_neq_implies_less)
  show ?thesis
    unfolding re_match_us_code using * by (auto simp: dropWhile_eq_drop)
qed

lemma no_final_newline_drop: "no_final_newline s \<Longrightarrow> no_final_newline (drop k s)"
  by (auto simp: no_final_newline_def)

lemma no_final_newline_Cons: "no_final_newline (x # xs) \<Longrightarrow> no_final_newline xs"
  by (auto simp: no_final_newline_def split: if_splits)

lemma dollar_no_newline: "no_final_newline r \<Longrightarrow> dollar r \<longleftrightarrow> r = []"
  by (auto simp: dollar_def no_final_newline_def)

lemma takeWhile_all: "length xs \<le> length (takeWhile P xs) \<longleftrightarrow> list_all P xs"
proof (induction xs)
  case Nil
  then show ?case by simp
next
  case (Cons x xs)
  then show ?case by (cases "P x") simp_all
qed

lemma tail_ok_no_newline:
  assumes "no_final_newline r"
  shows "tail_ok r \<longleftrightarrow>
    (case r of [] \<Rightarrow> True
     | d # b \<Rightarrow> d = CHR ''.'' \<and> 1 \<le> length b \<and> length b \<le> 2 \<and> list_all is_AZ b)"
proof (cases r)
  case Nil
  then show ?thesis by (simp add: tail_ok_def dollar_def)
next
  case (Cons d b)
  have nb: "no_final_newline (drop j b)" for j
    using assms Cons no_final_newline_Cons no_final_newline_drop by blast
  have "tail_ok r \<longleftrightarrow> d = CHR ''.'' \<and>
      (\<exists>j. 1 \<le> j \<and> j \<le> 2 \<and> j \<le> length (takeWhile is_AZ b) \<and> length b \<le> j)"
    using Cons assms by (auto simp: tail_ok_def dollar_no_newline nb)
  also have "\<dots> \<longleftrightarrow> d = CHR ''.'' \<and> 1 \<le> length b \<and> length b \<le> 2 \<and> list_all is_AZ b"
  proof -
    have "(\<exists>j. 1 \<le> j \<and> j \<le> 2 \<and> j \<le> length (takeWhile is_AZ b) \<and> length b \<le> j)
       \<longleftrightarrow> 1 \<le> length b \<and> length b \<le> 2 \<and> length b \<le> length (takeWhile is_AZ b)"
      using length_takeWhile_le[of is_AZ b] by (metis le_antisym le_trans)
    then show ?thesis by (simp add: takeWhile_all)
  qed
  finally show ?thesis using Cons by simp
qed

lemma re_match_is_grammar:
  assumes "no_final_newline s"
  shows "re_match us_code_pattern s \<longleftrightarrow> ticker_grammar s"
proof -
  have "no_final_newline (dropWhile is_AZ s)"
    using assms no_final_newline_drop by (metis dropWhile_eq_drop)
  then show ?thesis
    unfolding re_match_at_letters ticker_grammar_def Let_def
    by (simp add: tail_ok_no_newline)
qed

lemma strip_last: "strip s = [] \<or> \<not> isspace (last (strip s))"
proof (cases "dropWhile isspace (rev (dropWhile isspace s))")
  case Nil
  then show ?thesis by (simp add: strip_def)
next
  case (Cons x xs)
  then have "\<not> isspace x" by (metis hd_dropWhile list.sel(1) list.distinct(1))
  with Cons show ?thesis by (simp add: strip_def)
qed

lemma upper_char_newline: "upper_char c = CHR 0x0A \<Longrightarrow> c = CHR 0x0A"
proof -
  assume a: "upper_char c = CHR 0x0A"
  show ?thesis
  proof (cases "97 \<le> (of_char c :: nat) \<and> (of_char c :: nat) \<le> 122")
    case False
    with a show ?thesis by (simp add: upper_char_def Let_def)
  next
    case True
    then have "(of_char c - 32 :: nat) mod 256 = of_char c - 32"
      by (intro mod_less) arith
    with True have "(of_char (upper_char c) :: nat) = of_char c - 32"
      by (simp add: upper_char_def Let_def)
    with a True show ?thesis by auto
  qed
qed

lemma isspace_newline: "isspace (CHR 0x0A)"
  by (simp add: isspace_def)

lemma no_final_newline_code: "no_final_newline (upper (strip s))"
proof (cases "strip s = []")
  case True
  then show ?thesis by (simp add: no_final_newline_def upper_def)
next
  case False
  then have "\<not> isspace (last (strip s))" using strip_last by blast
  then have "last (strip s) \<noteq> CHR 0x0A" using isspace_newline by metis
  then have "upper_char (last (strip s)) \<noteq> CHR 0x0A" using upper_char_newline by blast
  with False show ?thesis by (simp add: no_final_newline_def upper_def last_map)
qed

text \<open>
  C3. Whenever the input, trimmed and upper-cased, matches the grammar of one to six
  upper-case letters with an optional dot and one or two upper-case letters, validation
  returns that trimmed upper-case form; in every other case it fails with the fetcher's
  exception for an illegal code (the specification's \<open>ValidationError\<close>), which carries
  the input as it was passed in, untrimmed.
\<close>

theorem validate_returns_canonical_or_fails:
  "validate_us_stock_code s =
     (if ticker_grammar (upper (strip s)) then Inr (upper (strip s))
      else Inl (DataFetchError Illegal_us_code s))"
  by (simp add: validate_us_stock_code_def Let_def re_match_is_grammar no_final_newline_code)

theorem validate_returns_canonical_or_fails_witness:
  "validate_us_stock_code '' brk.b '' = Inr ''BRK.B'' \<and>
   validate_us_stock_code '' appl3'' = Inl (DataFetchError Illegal_us_code '' appl3'')"
proof -
  have u1: "upper (strip '' brk.b '') = ''BRK.B''" by code_simp
  have g1: "ticker_grammar ''BRK.B''" by code_simp
  have g2: "\<not> ticker_grammar (upper (strip '' appl3''))" by code_simp
  show ?thesis
    using validate_returns_canonical_or_fails [of "'' brk.b ''"]
      validate_returns_canonical_or_fails [of "'' appl3''"] u1 g1 g2
    by simp
qed

section \<open>The retry loop\<close>

lemma wait_bounds: "2 \<le> wait_exponential 1 2 10 2 n \<and> wait_exponential 1 2 10 2 n \<le> 10"
  by (simp add: wait_exponential_def)








section \<open>Normalisation, column by column\<close>

lemma get_col_set_col:
  "get_col (set_col df k c) k' = (if k' = k then Inr c else get_col df k')"
  by (simp add: get_col_def set_col_def update_conv')

lemma map_of_set_col:
  "map_of (f_cols (set_col df k c)) k' = (if k' = k then Some c else map_of (f_cols df) k')"
  by (simp add: set_col_def update_conv')

lemma f_rows_set_col: "f_rows (set_col df k c) = f_rows df"
  by (simp add: set_col_def)

lemma labels_set_col:
  "set (map fst (f_cols (set_col df k c))) = insert k (set (map fst (f_cols df)))"
  by (simp add: set_col_def dom_update)

lemma get_col_Inr: "get_col df k = Inr c \<longleftrightarrow> map_of (f_cols df) k = Some c"
  by (simp add: get_col_def split: option.splits)

lemma floats_of_Inr: "floats_of c = Inr xs \<longleftrightarrow> c = Floats xs"
  by (simp add: floats_of_def split: column.splits)

lemma map_of_select:
  "map_of (concat (map (\<lambda>k. case m k of None \<Rightarrow> [] | Some c \<Rightarrow> [(k, c)]) ks)) k =
     (if k \<in> set ks then m k else None)"
  by (induction ks) (auto split: option.splits)

lemma map_of_select_cols:
  "map_of (f_cols (select_cols df ks)) k = (if k \<in> set ks then map_of (f_cols df) k else None)"
  by (simp add: select_cols_def map_of_select)

lemma f_rows_select_cols: "f_rows (select_cols df ks) = f_rows df"
  by (simp add: select_cols_def)

lemma bind_err_Inr: "bind_err r f = Inr y \<longleftrightarrow> (\<exists>v. r = Inr v \<and> f v = Inr y)"
  by (cases r) (simp_all add: bind_err_def)

lemma bind_errE:
  assumes "bind_err r f = Inr y"
  obtains v where "r = Inr v" "f v = Inr y"
  using assms by (cases r) (simp_all add: bind_err_def)

lemma convert_date_Inr:
  assumes "convert_date td df = Inr d"
  shows "f_rows d = f_rows df \<and> (\<forall>k. k \<noteq> ''date'' \<longrightarrow> map_of (f_cols d) k = map_of (f_cols df) k)"
  using assms unfolding convert_date_def
  by (elim bind_errE) (auto simp: map_of_set_col f_rows_set_col)

lemma assign_pct_chg_Inr:
  assumes "assign_pct_chg fm df = Inr d"
  shows "\<exists>cs. map_of (f_cols df) ''close'' = Some (Floats cs) \<and>
     d = set_col df ''pct_chg'' (Floats (map (\<lambda>x. fmul x (Fin 100)) (pct_change fm cs)))"
  using assms unfolding assign_pct_chg_def
  by (elim bind_errE) (auto simp: get_col_Inr floats_of_Inr)

lemma fill_and_round_Inr:
  assumes "fill_and_round df = Inr d"
  shows "\<exists>ps. map_of (f_cols df) ''pct_chg'' = Some (Floats ps) \<and>
     d = set_col df ''pct_chg'' (Floats (map (fround 2) (map (fillna (Fin 0)) ps)))"
  using assms unfolding fill_and_round_def
  by (elim bind_errE) (auto simp: get_col_Inr floats_of_Inr)

lemma assign_amount_Inr:
  assumes "assign_amount df = Inr d"
  shows "\<exists>vs cs. map_of (f_cols df) ''volume'' = Some (Floats vs) \<and>
     map_of (f_cols df) ''close'' = Some (Floats cs) \<and>
     d = set_col df ''amount'' (Floats (map2 fmul vs cs))"
  using assms unfolding assign_amount_def
  by (elim bind_errE) (auto simp: get_col_Inr floats_of_Inr)

lemma map_of_keep_standard:
  "map_of (f_cols (keep_standard df)) k =
     (if k \<in> set (''code'' # STANDARD_COLUMNS) then map_of (f_cols df) k else None)"
proof (cases "k \<in> set (map fst (f_cols df))")
  case True
  then show ?thesis
    by (simp add: keep_standard_def Let_def map_of_select_cols del: filter.simps set_simps)
next
  case False
  then have "map_of (f_cols df) k = None" by (simp add: map_of_eq_None_iff)
  with False show ?thesis
    by (simp add: keep_standard_def Let_def map_of_select_cols del: filter.simps set_simps)
qed

lemma f_rows_keep_standard: "f_rows (keep_standard df) = f_rows df"
  by (simp add: keep_standard_def Let_def f_rows_select_cols)

lemma reset_index_rows: "reset_index raw = Inr d0 \<Longrightarrow> f_rows d0 = index_length (r_index raw)"
  by (auto simp: reset_index_def Let_def split: if_splits)

lemma f_rows_rename: "f_rows (rename m df) = f_rows df"
  by (simp add: rename_def)

lemma normalize_data_Inr:
  assumes "normalize_data fm td df code = Inr out"
  shows "\<exists>raw d0 cs vs.
     df = Some raw \<and> \<not> empty_frame raw \<and> reset_index raw = Inr d0 \<and>
     renamed_column raw ''close'' = Some (Floats cs) \<and>
     renamed_column raw ''volume'' = Some (Floats vs) \<and>
     f_rows out = index_length (r_index raw) \<and>
     map_of (f_cols out) ''close'' = Some (Floats cs) \<and>
     map_of (f_cols out) ''volume'' = Some (Floats vs) \<and>
     map_of (f_cols out) ''amount'' = Some (Floats (map2 fmul vs cs)) \<and>
     map_of (f_cols out) ''pct_chg'' = Some (Floats (pct_column fm cs)) \<and>
     map_of (f_cols out) ''code'' = Some (Strs (replicate (f_rows out) (upper code)))"
proof -
  obtain raw where raw: "df = Some raw" "\<not> empty_frame raw"
    using assms by (auto simp: normalize_data_def split: option.splits if_splits)
  from assms raw obtain d0 d2 d3 d4 d5 where
    d0: "reset_index raw = Inr d0" and
    d2: "convert_date td (rename rename_map d0) = Inr d2" and
    d3: "assign_pct_chg fm d2 = Inr d3" and
    d4: "fill_and_round d3 = Inr d4" and
    d5: "assign_amount d4 = Inr d5" and
    out: "out = keep_standard (assign_code d5 code)"
    unfolding normalize_data_def by simp (elim bind_errE, simp)
  let ?d1 = "rename rename_map d0"
  from convert_date_Inr[OF d2] have c2: "f_rows d2 = f_rows ?d1"
    "\<And>k. k \<noteq> ''date'' \<Longrightarrow> map_of (f_cols d2) k = map_of (f_cols ?d1) k" by auto
  from assign_pct_chg_Inr[OF d3] obtain cs where
    cs: "map_of (f_cols d2) ''close'' = Some (Floats cs)" and
    d3': "d3 = set_col d2 ''pct_chg'' (Floats (map (\<lambda>x. fmul x (Fin 100)) (pct_change fm cs)))"
    by blast
  from fill_and_round_Inr[OF d4] obtain ps where
    ps: "map_of (f_cols d3) ''pct_chg'' = Some (Floats ps)" and
    d4': "d4 = set_col d3 ''pct_chg'' (Floats (map (fround 2) (map (fillna (Fin 0)) ps)))"
    by blast
  have ps': "ps = map (\<lambda>x. fmul x (Fin 100)) (pct_change fm cs)"
    using ps d3' by (simp add: map_of_set_col)
  from assign_amount_Inr[OF d5] obtain vs cs' where
    vs: "map_of (f_cols d4) ''volume'' = Some (Floats vs)" and
    cs': "map_of (f_cols d4) ''close'' = Some (Floats cs')" and
    d5': "d5 = set_col d4 ''amount'' (Floats (map2 fmul vs cs'))"
    by blast
  have cc: "cs' = cs" using cs' cs d4' d3' by (simp add: map_of_set_col)
  have vs1: "map_of (f_cols ?d1) ''volume'' = Some (Floats vs)"
    using vs d4' d3' c2(2)[of "''volume''"] by (simp add: map_of_set_col)
  have cs1: "map_of (f_cols ?d1) ''close'' = Some (Floats cs)"
    using cs c2(2)[of "''close''"] by simp
  have rc: "renamed_column raw ''close'' = Some (Floats cs)"
    "renamed_column raw ''volume'' = Some (Floats vs)"
    using cs1 vs1 d0 by (simp_all add: renamed_column_def)
  have rows: "f_rows d5 = index_length (r_index raw)"
    using d5' d4' d3' c2(1) reset_index_rows[OF d0] by (simp add: f_rows_set_col f_rows_rename)
  have rows_out: "f_rows out = index_length (r_index raw)"
    using out rows by (simp add: f_rows_keep_standard assign_code_def f_rows_set_col)
  have col: "map_of (f_cols out) k =
      (if k \<in> set (''code'' # STANDARD_COLUMNS) then map_of (f_cols (assign_code d5 code)) k else None)" for k
    unfolding out by (rule map_of_keep_standard)
  have o_close: "map_of (f_cols out) ''close'' = Some (Floats cs)"
    using cs d5' d4' d3' by (simp add: col STANDARD_COLUMNS_def assign_code_def map_of_set_col)
  have o_volume: "map_of (f_cols out) ''volume'' = Some (Floats vs)"
    using vs d5' by (simp add: col STANDARD_COLUMNS_def assign_code_def map_of_set_col)
  have o_amount: "map_of (f_cols out) ''amount'' = Some (Floats (map2 fmul vs cs))"
    using d5' cc by (simp add: col STANDARD_COLUMNS_def assign_code_def map_of_set_col)
  have o_pct: "map_of (f_cols out) ''pct_chg'' = Some (Floats (pct_column fm cs))"
    using d5' d4' ps' by (simp add: col STANDARD_COLUMNS_def assign_code_def map_of_set_col pct_column_def)
  have o_code: "map_of (f_cols out) ''code'' = Some (Strs (replicate (f_rows out) (upper code)))"
    using rows rows_out by (simp add: col assign_code_def map_of_set_col)
  show ?thesis
    using raw d0 rc rows_out o_close o_volume o_amount o_pct o_code by blast
qed








lemma round_half_even_zero: "round_half_even 0 = 0"
  by (simp add: round_half_even_def)

lemma fround_zero: "fround 2 (Fin 0) = Fin 0"
  by (simp add: round_half_even_zero)












section \<open>Helper facts on the download, the facade and the overview\<close>


lemma fetch_body_invalid:
  assumes "validate_us_stock_code c = Inl err"
  shows "fetch_body prov c s e w = (Inl (DataFetchError Illegal_us_code c), w)"
  using assms
  by (simp add: fetch_body_def validate_us_stock_code_def Let_def split: if_splits)



lemma fetchHistory_snd:
  "snd (fetchHistory fm td prov w c s e) = snd (fetch_raw_data prov w c s e)"
  by (simp add: fetchHistory_def split: prod.splits sum.splits)




lemma row_get_iloc:
  "row_get (iloc df i) k =
     (if k \<in> set (map fst (r_data df)) then Inr (the (map_of (r_data df) k) ! i)
      else Inl (KeyError k))"
proof -
  have m: "map_of (map (\<lambda>(k, v). (k, v ! i)) xs) k = map_option (\<lambda>v. v ! i) (map_of xs k)" for xs
    by (induction xs) auto
  show ?thesis
  proof (cases "map_of (r_data df) k")
    case None
    then have "k \<notin> set (map fst (r_data df))" by (simp add: map_of_eq_None_iff)
    with None show ?thesis by (simp add: row_get_def iloc_def m)
  next
    case (Some v)
    then have "k \<in> set (map fst (r_data df))" by (metis map_of_eq_None_iff option.distinct(1) set_map)
    with Some show ?thesis by (simp add: row_get_def iloc_def m)
  qed
qed

lemma index_entry_cases:
  "(fetched_ok r \<longrightarrow> (\<exists>mi. index_entry r c n = Appended mi \<and> mi_code mi = c \<and> mi_name mi = n)) \<and>
   (\<not> fetched_ok r \<longrightarrow> (\<forall>mi. index_entry r c n \<noteq> Appended mi))"
proof (cases r)
  case (History_raises x)
  then show ?thesis by (simp add: fetched_ok_def index_entry_def)
next
  case (History hist)
  show ?thesis
  proof (cases "empty_frame hist")
    case True
    with History show ?thesis by (simp add: fetched_ok_def index_entry_def)
  next
    case False
    show ?thesis
    proof (cases "fetched_ok r")
      case True
      then have "''Close'' \<in> set (map fst (r_data hist))" "''Open'' \<in> set (map fst (r_data hist))"
        "''High'' \<in> set (map fst (r_data hist))" "''Low'' \<in> set (map fst (r_data hist))"
        using History by (simp_all add: fetched_ok_def)
      with True History False show ?thesis
        by (simp add: index_entry_def Let_def row_get_iloc bind_err_def)
    next
      case nok: False
      then have "''Close'' \<notin> set (map fst (r_data hist)) \<or> ''Open'' \<notin> set (map fst (r_data hist)) \<or>
        ''High'' \<notin> set (map fst (r_data hist)) \<or> ''Low'' \<notin> set (map fst (r_data hist))"
        using History False by (auto simp: fetched_ok_def)
      then have "\<forall>mi. index_entry r c n \<noteq> Appended mi"
        using History False
        by (auto simp: index_entry_def Let_def row_get_iloc bind_err_def)
      with nok show ?thesis by simp
    qed
  qed
qed

lemma indices_loop_entries:
  "map (\<lambda>mi. (mi_code mi, mi_name mi)) (fst (indices_loop prov cfg acc ws)) =
     map (\<lambda>mi. (mi_code mi, mi_name mi)) acc @ filter (\<lambda>(c, n). fetched_ok (prov c)) cfg"
proof (induction cfg arbitrary: acc ws)
  case Nil
  then show ?case by simp
next
  case (Cons p cfg)
  obtain c n where p: "p = (c, n)" by (cases p)
  show ?case
  proof (cases "fetched_ok (prov c)")
    case True
    then obtain mi where "index_entry (prov c) c n = Appended mi" "mi_code mi = c" "mi_name mi = n"
      using index_entry_cases[of "prov c" c n] by blast
    with True p Cons.IH show ?thesis by simp
  next
    case False
    then have "\<forall>mi. index_entry (prov c) c n \<noteq> Appended mi"
      using index_entry_cases[of "prov c" c n] by blast
    with False p Cons.IH show ?thesis
      by (cases "index_entry (prov c) c n") simp_all
  qed
qed

section \<open>The claims\<close>











text \<open>
  C5, as amended. For an input that fails validation the retried download never calls the
  provider and writes no log line; the validation runs inside the retried body, so it is
  attempted three times with two waits between the attempts, each within 2 and 10, and
  the caller receives \<open>RetryError\<close> around the validation failure.
\<close>

theorem invalid_code_is_retried:
  "validate_us_stock_code c = Inl err \<Longrightarrow>
     fetch_raw_data prov w c s e =
       (Inl (RetryError (DataFetchError Illegal_us_code c)),
        w\<lparr>attempts := 3,
          sleeps := sleeps w @ [wait_exponential 1 2 10 2 1, wait_exponential 1 2 10 2 2]\<rparr>) \<and>
     net_calls (snd (fetch_raw_data prov w c s e)) = net_calls w \<and>
     (\<forall>x \<in> set [wait_exponential 1 2 10 2 1, wait_exponential 1 2 10 2 2]. 2 \<le> x \<and> x \<le> 10)"
proof -
  assume v: "validate_us_stock_code c = Inl err"
  have b: "fetch_body prov c s e w' = (Inl (DataFetchError Illegal_us_code c), w')" for w'
    using fetch_body_invalid[OF v] .
  have "fetch_raw_data prov w c s e =
       (Inl (RetryError (DataFetchError Illegal_us_code c)),
        w\<lparr>attempts := 3,
          sleeps := sleeps w @ [wait_exponential 1 2 10 2 1, wait_exponential 1 2 10 2 2]\<rparr>)"
    unfolding fetch_raw_data_def
    by (subst retry_call.simps) (simp add: b stop_after_attempt_def numeral_2_eq_2 numeral_3_eq_3)
  then show ?thesis using wait_bounds by simp
qed

theorem invalid_code_is_retried_witness:
  "fetch_raw_data always_example world0 ''appl3'' ''2024-01-01'' ''2024-02-01'' =
     (Inl (RetryError (DataFetchError Illegal_us_code ''appl3'')),
      world0\<lparr>attempts := 3, sleeps := [2, 2]\<rparr>)"
proof -
  have v: "validate_us_stock_code ''appl3'' = Inl (DataFetchError Illegal_us_code ''appl3'')"
    by code_simp
  have w1: "wait_exponential 1 2 10 2 1 = 2" "wait_exponential 1 2 10 2 2 = 2"
    by (simp_all add: wait_exponential_def)
  show ?thesis
    using invalid_code_is_retried [OF v, of always_example world0 "''2024-01-01''" "''2024-02-01''"] w1
    by (simp add: world0_def)
qed

text \<open>
  C5 as stated fails: for the malformed code \<open>appl3\<close> three attempts are made, two waits
  are slept, and what is raised to the caller is not the validation failure itself.
\<close>

theorem invalid_code_three_attempts:
  "attempts (snd (fetch_raw_data always_example world0 ''appl3'' ''2024-01-01'' ''2024-02-01'')) = 3 \<and>
   sleeps (snd (fetch_raw_data always_example world0 ''appl3'' ''2024-01-01'' ''2024-02-01'')) = [2, 2] \<and>
   fst (fetch_raw_data always_example world0 ''appl3'' ''2024-01-01'' ''2024-02-01'')
     \<noteq> Inl (DataFetchError Illegal_us_code ''appl3'')"
  by code_simp

text \<open>
  C6. An absent table and a table with no rows or no columns fail normalisation with the
  fetcher's data-is-empty exception (the specification's \<open>NormalizationError\<close>); and a
  result of normalisation always has at least one row, each stamped with the code.
\<close>

theorem normalize_rejects_empty:
  "((df = None \<or> (\<exists>raw. df = Some raw \<and> empty_frame raw)) \<longrightarrow>
      normalize_data fm to_datetime df code = Inl (DataFetchError Normalize_empty code)) \<and>
   (normalize_data fm to_datetime df code = Inr out \<longrightarrow>
      0 < f_rows out \<and>
      map_of (f_cols out) ''code'' = Some (Strs (replicate (f_rows out) (upper code))))"
proof -
  have a: "(df = None \<or> (\<exists>raw. df = Some raw \<and> empty_frame raw)) \<longrightarrow>
      normalize_data fm to_datetime df code = Inl (DataFetchError Normalize_empty code)"
    by (auto simp: normalize_data_def)
  have b: "0 < f_rows out \<and>
      map_of (f_cols out) ''code'' = Some (Strs (replicate (f_rows out) (upper code)))"
    if "normalize_data fm to_datetime df code = Inr out"
  proof -
    from normalize_data_Inr[OF that] obtain raw where
      "\<not> empty_frame raw" "f_rows out = index_length (r_index raw)"
      "map_of (f_cols out) ''code'' = Some (Strs (replicate (f_rows out) (upper code)))"
      by auto
    then show ?thesis by (simp add: empty_frame_def)
  qed
  from a b show ?thesis by blast
qed

theorem normalize_rejects_empty_witness:
  "normalize_data No_fill keep_datetime (Some empty_raw) ''AAPL'' =
     Inl (DataFetchError Normalize_empty ''AAPL'') \<and>
   normalize_data No_fill keep_datetime None ''AAPL'' =
     Inl (DataFetchError Normalize_empty ''AAPL'') \<and>
   0 < f_rows example_out"
proof -
  have e: "empty_frame empty_raw" by (simp add: empty_frame_def empty_raw_def)
  have n: "normalize_data Pad keep_datetime (Some example_raw) ''aapl'' = Inr example_out"
    by code_simp
  show ?thesis
    using normalize_rejects_empty [of "Some empty_raw" No_fill keep_datetime "''AAPL''" example_out]
      normalize_rejects_empty [of None No_fill keep_datetime "''AAPL''" example_out]
      normalize_rejects_empty [of "Some example_raw" Pad keep_datetime "''aapl''" example_out]
      e n by simp
qed



text \<open>
  C8. For every configuration of symbols and every provider, the overview holds exactly
  the configured symbols whose fetch brought usable data, under their configured names
  and in the configured order; a symbol whose fetch raises or returns an empty table is
  left out. The function returns a list in every case: it raises nothing.
\<close>

theorem overview_omits_only_failed_indices:
  "map (\<lambda>mi. (mi_code mi, mi_name mi)) (fst (get_main_indices prov cfg)) =
     filter (\<lambda>(c, n). fetched_ok (prov c)) cfg \<and>
   (\<forall>c x. prov c = History_raises x \<longrightarrow> \<not> fetched_ok (prov c)) \<and>
   (\<forall>c h. prov c = History h \<and> empty_frame h \<longrightarrow> \<not> fetched_ok (prov c))"
  by (simp add: get_main_indices_def indices_loop_entries fetched_ok_def)

theorem overview_omits_only_failed_indices_witness:
  "map (\<lambda>mi. (mi_code mi, mi_name mi)) (fst (get_main_indices one_throws MAIN_INDICES)) =
     [(''^GSPC'', ''S&P 500''), (''^DJI'', ''Dow Jones''), (''^VIX'', ''VIX Volatility'')]"
proof -
  have "filter (\<lambda>(c, n). fetched_ok (one_throws c)) MAIN_INDICES =
      [(''^GSPC'', ''S&P 500''), (''^DJI'', ''Dow Jones''), (''^VIX'', ''VIX Volatility'')]"
    by code_simp
  then show ?thesis
    using overview_omits_only_failed_indices [of one_throws MAIN_INDICES] by simp
qed






end
